theory Spec2Isabelle
  imports Main "HOL-Library.Sublist"
begin

section \<open>Strings\<close>

text \<open>
  Python strings are modelled as \<open>string\<close> (lists of 8-bit characters); the URLs and
  page texts considered are ASCII.  An exception is a value carrying the text that
  \<open>str(e)\<close> yields; every exception raised by the code and its libraries derives from
  \<open>Exception\<close>, which is what the handlers of the source catch.
\<close>

datatype exn = Exception (str: string)

text \<open>\<open>sub in s\<close> on Python strings: \<open>sub\<close> occurs as a contiguous substring.\<close>

fun str_starts :: "string \<Rightarrow> string \<Rightarrow> bool" where
  "str_starts [] s = True"
| "str_starts (c # cs) [] = False"
| "str_starts (c # cs) (d # ds) = (c = d \<and> str_starts cs ds)"

fun str_in :: "string \<Rightarrow> string \<Rightarrow> bool" where
  "str_in sub [] = (sub = [])"
| "str_in sub (c # cs) = (str_starts sub (c # cs) \<or> str_in sub cs)"

definition endswith :: "string \<Rightarrow> string \<Rightarrow> bool" where
  "endswith s suf = str_starts (rev suf) (rev s)"

text \<open>\<open>sep.join(xs)\<close>.\<close>

fun join :: "string \<Rightarrow> string list \<Rightarrow> string" where
  "join sep [] = []"
| "join sep [x] = x"
| "join sep (x # y # ys) = x @ sep @ join sep (y # ys)"

text \<open>ASCII whitespace, as removed by \<open>str.strip()\<close>.\<close>

definition isspace :: "char \<Rightarrow> bool" where
  "isspace c = (c \<in> set [CHR '' '', CHR 0x09, CHR 0x0A, CHR 0x0B, CHR 0x0C, CHR 0x0D,
                          CHR 0x1C, CHR 0x1D, CHR 0x1E, CHR 0x1F])"

definition strip :: "string \<Rightarrow> string" where
  "strip s = rev (dropWhile isspace (rev (dropWhile isspace s)))"

text \<open>\<open>s.split()\<close>: the maximal runs of non-whitespace characters.\<close>

fun split_acc :: "string \<Rightarrow> string \<Rightarrow> string list" where
  "split_acc w [] = (if w = [] then [] else [rev w])"
| "split_acc w (c # cs) =
     (if isspace c then (if w = [] then split_acc [] cs else rev w # split_acc [] cs)
      else split_acc (c # w) cs)"

definition split :: "string \<Rightarrow> string list" where
  "split s = split_acc [] s"

text \<open>\<open>str(n)\<close> for a non-negative integer.\<close>

definition digit :: "nat \<Rightarrow> char" where
  "digit d = ''0123456789'' ! (d mod 10)"

fun str_nat :: "nat \<Rightarrow> string" where
  "str_nat n = (if n < 10 then [digit n] else str_nat (n div 10) @ [digit (n mod 10)])"

declare str_nat.simps [simp del]

definition ascii_lower :: "char \<Rightarrow> char" where
  "ascii_lower c =
     (case map_of (zip ''ABCDEFGHIJKLMNOPQRSTUVWXYZ'' ''abcdefghijklmnopqrstuvwxyz'') c of
        Some l \<Rightarrow> l | None \<Rightarrow> c)"

definition ascii_alpha :: "char \<Rightarrow> bool" where
  "ascii_alpha c =
     (c \<in> set ''abcdefghijklmnopqrstuvwxyzABCDEFGHIJKLMNOPQRSTUVWXYZ'')"

text \<open>\<open>s.find(c)\<close> and \<open>s.rfind(c)\<close> for a single character: \<open>None\<close> stands for -1.\<close>

fun find_chr :: "char \<Rightarrow> string \<Rightarrow> nat option" where
  "find_chr c [] = None"
| "find_chr c (d # ds) =
     (if c = d then Some 0 else map_option Suc (find_chr c ds))"

definition rfind_chr :: "char \<Rightarrow> string \<Rightarrow> nat option" where
  "rfind_chr c s =
     (case find_chr c (rev s) of None \<Rightarrow> None | Some i \<Rightarrow> Some (length s - 1 - i))"

section \<open>URLs: the part of \<open>urllib.parse\<close> that the crawler calls\<close>

record ParseResult =
  scheme :: string
  netloc :: string
  path :: string
  params :: string
  query :: string
  fragment :: string

definition scheme_chars :: "char set" where
  "scheme_chars =
     set ''abcdefghijklmnopqrstuvwxyzABCDEFGHIJKLMNOPQRSTUVWXYZ0123456789+-.''"

definition uses_params :: "string list" where
  "uses_params = ['''', ''ftp'', ''hdl'', ''prospero'', ''http'', ''imap'', ''https'',
     ''shttp'', ''rtsp'', ''rtspu'', ''sip'', ''sips'', ''mms'', ''sftp'', ''tel'']"

text \<open>
  \<open>_splitnetloc(url, 2)\<close>: the network location runs from index 2 to the first of
  \<open>/\<close>, \<open>?\<close>, \<open>#\<close>.  The argument here is the URL after its leading \<open>//\<close>.
\<close>

definition is_delim :: "char \<Rightarrow> bool" where
  "is_delim c = (c \<in> set ''/?#'')"

definition splitnetloc :: "string \<Rightarrow> string \<times> string" where
  "splitnetloc s = (takeWhile (\<lambda>c. \<not> is_delim c) s, dropWhile (\<lambda>c. \<not> is_delim c) s)"

text \<open>\<open>s.split(c, 1)\<close> when \<open>c\<close> occurs in \<open>s\<close>; otherwise \<open>s\<close> is kept whole.\<close>

definition split_at :: "char \<Rightarrow> string \<Rightarrow> string \<times> string" where
  "split_at c s = (takeWhile (\<lambda>d. d \<noteq> c) s, drop 1 (dropWhile (\<lambda>d. d \<noteq> c) s))"

definition splitparams :: "string \<Rightarrow> string \<times> string" where
  "splitparams u =
     (case rfind_chr CHR ''/'' u of
        Some k \<Rightarrow>
          (case find_chr CHR '';'' (drop k u) of
             None \<Rightarrow> (u, [])
           | Some j \<Rightarrow> (take (k + j) u, drop (k + j + 1) u))
      | None \<Rightarrow>
          (case find_chr CHR '';'' u of
             None \<Rightarrow> (take (length u - 1) u, u)
           | Some i \<Rightarrow> (take i u, drop (i + 1) u)))"

text \<open>
  \<open>urlparse(url)\<close> of CPython 3.12: leading control characters and spaces are stripped,
  tab, CR and LF are removed, a scheme is split off when the text before the first colon
  consists of scheme characters, a network location follows \<open>//\<close>, and fragment, query
  and parameters are split from the path.  \<open>ValueError\<close> is raised for unbalanced
  brackets in the network location.  Not modelled: the validation of the address inside
  balanced brackets and the NFKC check of a non-ASCII network location.
\<close>

definition split_scheme :: "string \<Rightarrow> string \<times> string" where
  "split_scheme u =
     (case find_chr CHR '':'' u of
        None \<Rightarrow> ([], u)
      | Some i \<Rightarrow>
          if 0 < i \<and> ascii_alpha (hd u) \<and> (\<forall>c \<in> set (take i u). c \<in> scheme_chars)
          then (map ascii_lower (take i u), drop (i + 1) u)
          else ([], u))"

definition urlparse :: "string \<Rightarrow> exn + ParseResult" where
  "urlparse url0 =
     (let url1 = dropWhile (\<lambda>c. of_char c \<le> (32::nat)) url0;
          url2 = filter (\<lambda>c. c \<notin> set [CHR 0x09, CHR 0x0D, CHR 0x0A]) url1;
          (sch, url3) = split_scheme url2;
          (loc, url4) = (if take 2 url3 = ''//'' then splitnetloc (drop 2 url3)
                         else ([], url3))
      in if (CHR ''['' \<in> set loc \<and> CHR '']'' \<notin> set loc) \<or>
            (CHR '']'' \<in> set loc \<and> CHR ''['' \<notin> set loc)
         then Inl (Exception ''Invalid IPv6 URL'')
         else
           let (url5, frag) = (if CHR ''#'' \<in> set url4 then split_at CHR ''#'' url4
                               else (url4, []));
               (url6, qry) = (if CHR ''?'' \<in> set url5 then split_at CHR ''?'' url5
                              else (url5, []));
               (pth, prm) = (if sch \<in> set uses_params \<and> CHR '';'' \<in> set url6
                             then splitparams url6 else (url6, []))
           in Inr \<lparr>scheme = sch, netloc = loc, path = pth, params = prm,
                    query = qry, fragment = frag\<rparr>)"

section \<open>Parsed pages: the part of BeautifulSoup that the crawler calls\<close>

text \<open>
  A parsed document is a forest of text nodes and elements; an element has a lower-case
  tag name, its attributes and its children.  Comments, doctypes and other special
  strings are neither elements nor text that \<open>stripped_strings\<close> yields, and are
  left out.
\<close>

datatype node = Text string | Element string "(string \<times> string) list" "node list"

type_synonym soup = "node list"

fun name :: "node \<Rightarrow> string" where
  "name (Text s) = []"
| "name (Element n a cs) = n"

fun attrs :: "node \<Rightarrow> (string \<times> string) list" where
  "attrs (Text s) = []"
| "attrs (Element n a cs) = a"

fun is_tag :: "node \<Rightarrow> bool" where
  "is_tag (Text s) = False"
| "is_tag (Element n a cs) = True"

text \<open>A CSS selector list as used by the source: type selectors and class selectors.\<close>

datatype selector = Tag string | Class string

fun matches :: "selector \<Rightarrow> node \<Rightarrow> bool" where
  "matches sel (Text s) = False"
| "matches (Tag t) (Element n a cs) = (n = t)"
| "matches (Class c) (Element n a cs) =
     (case map_of a ''class'' of None \<Rightarrow> False | Some v \<Rightarrow> c \<in> set (split v))"

definition matches_any :: "selector list \<Rightarrow> node \<Rightarrow> bool" where
  "matches_any sels nd = (\<exists>sel \<in> set sels. matches sel nd)"

text \<open>All elements below a forest, in document order (an element before its children).\<close>

fun descendants :: "node \<Rightarrow> node list" where
  "descendants (Text s) = []"
| "descendants (Element n a cs) = Element n a cs # concat (map descendants cs)"

definition select :: "selector list \<Rightarrow> soup \<Rightarrow> node list" where
  "select sels doc = filter (matches_any sels) (concat (map descendants doc))"

definition select_one :: "selector list \<Rightarrow> soup \<Rightarrow> node option" where
  "select_one sels doc = List.find (matches_any sels) (concat (map descendants doc))"

text \<open>
  \<open>for elem in soup.select(sels): elem.decompose()\<close>: every matching element is
  removed from the tree, together with everything below it.
\<close>

fun decompose :: "selector list \<Rightarrow> node \<Rightarrow> node" where
  "decompose sels (Text s) = Text s"
| "decompose sels (Element n a cs) =
     Element n a (filter (\<lambda>c. \<not> matches_any sels c) (map (decompose sels) cs))"

definition decompose_all :: "selector list \<Rightarrow> soup \<Rightarrow> soup" where
  "decompose_all sels doc =
     filter (\<lambda>c. \<not> matches_any sels c) (map (decompose sels) doc)"

text \<open>The text nodes below a node, in document order, and \<open>stripped_strings\<close>.\<close>

fun strings :: "node \<Rightarrow> string list" where
  "strings (Text s) = [s]"
| "strings (Element n a cs) = concat (map strings cs)"

definition stripped_strings :: "node \<Rightarrow> string list" where
  "stripped_strings nd = filter (\<lambda>s. s \<noteq> []) (map strip (strings nd))"

text \<open>
  \<open>tag.string\<close>: the text of a tag whose only child is a text node, or whose only
  child is a tag that has a \<open>string\<close>; \<open>None\<close> otherwise.
\<close>

fun string_of :: "node \<Rightarrow> string option" where
  "string_of (Text s) = Some s"
| "string_of (Element n a []) = None"
| "string_of (Element n a [c]) = string_of c"
| "string_of (Element n a (c # d # cs)) = None"

text \<open>\<open>soup.find_all('a', href=True)\<close> and \<open>link['href']\<close>.\<close>

definition find_all_a_href :: "soup \<Rightarrow> node list" where
  "find_all_a_href doc =
     filter (\<lambda>nd. name nd = ''a'' \<and> map_of (attrs nd) ''href'' \<noteq> None)
       (concat (map descendants doc))"

definition href :: "node \<Rightarrow> string" where
  "href nd = (case map_of (attrs nd) ''href'' of Some v \<Rightarrow> v | None \<Rightarrow> [])"

section \<open>DocumentChunk and DocumentProcessor\<close>

text \<open>
  \<open>title\<close> is declared \<open>str\<close> in the source, but \<open>soup.title.string\<close> can be
  \<open>None\<close>, so the field holds an optional string.
\<close>

record DocumentChunk =
  content :: string
  url :: string
  title :: "string option"

record DocumentProcessor =
  base_url :: string
  visited_urls :: "string set"
  chunks :: "DocumentChunk list"

definition new_processor :: "string \<Rightarrow> DocumentProcessor" where
  "new_processor u = \<lparr>base_url = u, visited_urls = {}, chunks = []\<rparr>"

definition blocked_exts :: "string list" where
  "blocked_exts = [''.png'', ''.jpg'', ''.css'', ''.js'']"

text \<open>
  \<open>is_valid_url\<close>: both URLs are parsed inside \<open>try\<close>; any exception makes the
  result \<open>False\<close>.  The parser is a parameter, so that what is proved holds for
  every behaviour of \<open>urlparse\<close>.
\<close>

definition is_valid_url_body ::
  "(string \<Rightarrow> exn + ParseResult) \<Rightarrow> string \<Rightarrow> string \<Rightarrow> exn + bool" where
  "is_valid_url_body parse base u =
     (case parse u of
        Inl e \<Rightarrow> Inl e
      | Inr parsed \<Rightarrow>
          (case parse base of
             Inl e \<Rightarrow> Inl e
           | Inr base_parsed \<Rightarrow>
               Inr (netloc parsed = netloc base_parsed \<and>
                    \<not> (\<exists>ext \<in> set blocked_exts. str_in ext u))))"

definition is_valid_url ::
  "(string \<Rightarrow> exn + ParseResult) \<Rightarrow> string \<Rightarrow> string \<Rightarrow> exn + bool" where
  "is_valid_url parse base u =
     (case is_valid_url_body parse base u of
        Inl e \<Rightarrow> Inr False
      | Inr b \<Rightarrow> Inr b)"

definition chrome_selectors :: "selector list" where
  "chrome_selectors = [Tag ''nav'', Tag ''header'', Tag ''footer'', Tag ''script'', Tag ''style'']"

definition main_selectors :: "selector list" where
  "main_selectors = [Tag ''main'', Tag ''article'', Class ''content'', Class ''documentation'']"

text \<open>
  \<open>extract_content\<close> changes the soup in place (the decomposed elements are gone
  afterwards), so the model returns the soup as well.  \<open>find_main_content\<close> is the
  selection of the content region: the first element, in document order, that matches
  one of the four selectors, and the \<open>body\<close> element when there is none.  The operations of the body are
  total on the tree model, so the handler of the source (log, return \<open>None\<close>) has
  no exception to catch here.
\<close>

definition find_main_content :: "soup \<Rightarrow> node option" where
  "find_main_content doc' =
     (case select_one main_selectors doc' of
        Some m \<Rightarrow> Some m
      | None \<Rightarrow> select_one [Tag ''body''] doc')"

definition extract_content :: "soup \<Rightarrow> string \<Rightarrow> DocumentChunk option \<times> soup" where
  "extract_content doc u =
     (let doc' = decompose_all chrome_selectors doc;
          main_content = find_main_content doc'
      in case main_content of
           None \<Rightarrow> (None, doc')
         | Some m \<Rightarrow>
             (Some \<lparr>content = join '' '' (stripped_strings m),
                    url = u,
                    title = (case select_one [Tag ''title''] doc' of
                               Some t \<Rightarrow> string_of t
                             | None \<Rightarrow> Some u)\<rparr>,
              doc'))"

section \<open>The crawl\<close>

text \<open>
  A response of \<open>requests.get\<close>: status, reason phrase, final URL, and the tree that
  \<open>BeautifulSoup(response.text, 'html.parser')\<close> builds from its body.
\<close>

record response =
  status_code :: nat
  reason :: string
  resp_url :: string
  html :: soup

text \<open>\<open>response.raise_for_status()\<close>: \<open>HTTPError\<close> for the codes 400 to 599.\<close>

definition raise_for_status :: "response \<Rightarrow> exn + unit" where
  "raise_for_status r =
     (if 400 \<le> status_code r \<and> status_code r < 500
      then Inl (Exception (str_nat (status_code r) @ '' Client Error: '' @ reason r @
                           '' for url: '' @ resp_url r))
      else if 500 \<le> status_code r \<and> status_code r < 600
      then Inl (Exception (str_nat (status_code r) @ '' Server Error: '' @ reason r @
                           '' for url: '' @ resp_url r))
      else Inr ())"

text \<open>
  The two calls that open the \<open>try\<close> block of \<open>crawl_page\<close>, taken together:
  \<open>requests.get\<close> followed by \<open>raise_for_status\<close>.
\<close>

definition fetch :: "exn + response \<Rightarrow> exn + response" where
  "fetch got =
     (case got of
        Inl e \<Rightarrow> Inl e
      | Inr r \<Rightarrow> (case raise_for_status r of Inl e \<Rightarrow> Inl e | Inr _ \<Rightarrow> Inr r))"

text \<open>
  The effects of a run are recorded as events, the most recent first: every
  \<open>requests.get\<close> with what it gave, and every line written to the logger.
\<close>

datatype event =
    Get string "exn + response"
  | LogError string
  | LogInfo string

text \<open>
  The collaborators of the crawler.  What a GET returns may depend on everything that
  happened before it, so a site may answer the same URL differently each time.
\<close>

record env =
  parse_url :: "string \<Rightarrow> exn + ParseResult"
  join_url :: "string \<Rightarrow> string \<Rightarrow> exn + string"
  requests_get :: "event list \<Rightarrow> string \<Rightarrow> exn + response"

type_synonym cstate = "DocumentProcessor \<times> event list"

text \<open>
  A call either returns, or raises, or is still running when the recursion budget of
  the model is used up (\<open>Halted\<close>, with the state reached at that moment).
\<close>

datatype 'a outcome = Returned 'a | Raised exn 'a | Halted 'a

fun state_of :: "'a outcome \<Rightarrow> 'a" where
  "state_of (Returned s) = s"
| "state_of (Raised e s) = s"
| "state_of (Halted s) = s"

text \<open>\<open>except Exception as e: logger.error(f"Error crawling {url}: {e}")\<close>\<close>

fun except_log :: "string \<Rightarrow> cstate outcome \<Rightarrow> cstate outcome" where
  "except_log u (Raised e (p, tr)) =
     Returned (p, LogError (''Error crawling '' @ u @ '': '' @ str e) # tr)"
| "except_log u (Returned s) = Returned s"
| "except_log u (Halted s) = Halted s"

definition store_chunk :: "DocumentChunk option \<Rightarrow> DocumentProcessor \<Rightarrow> DocumentProcessor" where
  "store_chunk c p = (case c of None \<Rightarrow> p | Some ch \<Rightarrow> p\<lparr>chunks := chunks p @ [ch]\<rparr>)"

text \<open>
  \<open>crawl_page\<close> and its loop over the links of the page.  The first argument is
  the budget of the model: it bounds the length of every chain of nested calls and loop
  iterations, and a run that needs more is cut off.
\<close>

fun crawl_page :: "nat \<Rightarrow> env \<Rightarrow> cstate \<Rightarrow> string \<Rightarrow> cstate outcome"
  and crawl_links :: "nat \<Rightarrow> env \<Rightarrow> string \<Rightarrow> cstate \<Rightarrow> node list \<Rightarrow> cstate outcome" where
  "crawl_page 0 E s u = Halted s"
| "crawl_page (Suc n) E (p, tr) u =
     (if u \<in> visited_urls p then Returned (p, tr)
      else case is_valid_url (parse_url E) (base_url p) u of
        Inl e \<Rightarrow> Raised e (p, tr)
      | Inr ok \<Rightarrow>
          if \<not> ok then Returned (p, tr)
          else except_log u
            (let got = requests_get E tr u; tr1 = Get u got # tr
             in case got of
                  Inl e \<Rightarrow> Raised e (p, tr1)
                | Inr r \<Rightarrow>
                    (case raise_for_status r of
                       Inl e \<Rightarrow> Raised e (p, tr1)
                     | Inr _ \<Rightarrow>
                         (let p1 = p\<lparr>visited_urls := insert u (visited_urls p)\<rparr>;
                              (chunk, doc) = extract_content (html r) u
                          in crawl_links n E u (store_chunk chunk p1, tr1)
                               (find_all_a_href doc)))))"
| "crawl_links n E u s [] = Returned s"
| "crawl_links 0 E u s (l # ls) = Halted s"
| "crawl_links (Suc n) E u s (l # ls) =
     (case join_url E u (href l) of
        Inl e \<Rightarrow> Raised e s
      | Inr next_url \<Rightarrow>
          (case crawl_page n E s next_url of
             Returned s' \<Rightarrow> crawl_links n E u s' ls
           | Raised e s' \<Rightarrow> Raised e s'
           | Halted s' \<Rightarrow> Halted s'))"

text \<open>
  \<open>process_documentation\<close> submits one task to the executor and leaves the
  \<open>with\<close> block when that task is over; an exception of the task would stay in its
  future, which nobody reads.
\<close>

fun process_documentation :: "nat \<Rightarrow> env \<Rightarrow> cstate \<Rightarrow> cstate outcome" where
  "process_documentation n E (p, tr) =
     (case crawl_page n E (p, tr) (base_url p) of
        Raised e s \<Rightarrow> Returned s
      | r \<Rightarrow> r)"

section \<open>QAAgent\<close>

text \<open>
  The agent holds its processor (\<open>None\<close> until \<open>initialize_with_url\<close> has run).
  Its client is the collaborator \<open>messages.create\<close>, a parameter of
  \<open>answer_question\<close>.
\<close>

record QAAgent =
  processor :: "DocumentProcessor option"

type_synonym astate = "QAAgent \<times> event list"

text \<open>
  \<open>initialize_with_url\<close>: the processor is assigned first and then crawls in
  place; an exception of the \<open>try\<close> block is logged and raised again.
\<close>

fun initialize_with_url :: "nat \<Rightarrow> env \<Rightarrow> astate \<Rightarrow> string \<Rightarrow> astate outcome" where
  "initialize_with_url n E (a, tr) u =
     (case process_documentation n E
             (new_processor u, LogInfo (''Starting documentation processing for '' @ u) # tr) of
        Returned (p, tr') \<Rightarrow>
          Returned (a\<lparr>processor := Some p\<rparr>,
                    LogInfo (''Processed '' @ str_nat (length (chunks p)) @
                             '' documentation chunks'') # tr')
      | Raised e (p, tr') \<Rightarrow>
          Raised e (a\<lparr>processor := Some p\<rparr>,
                    LogError (''Error initializing agent: '' @ str e) # tr')
      | Halted (p, tr') \<Rightarrow> Halted (a\<lparr>processor := Some p\<rparr>, tr'))"

text \<open>\<open>f"{chunk.title}"\<close> prints \<open>None\<close> for a missing title.\<close>

definition fmt_opt :: "string option \<Rightarrow> string" where
  "fmt_opt t = (case t of None \<Rightarrow> ''None'' | Some s \<Rightarrow> s)"

definition nl :: string where
  "nl = [CHR 0x0A]"

definition fmt_chunk :: "DocumentChunk \<Rightarrow> string" where
  "fmt_chunk c =
     ''Source: '' @ url c @ nl @ ''Title: '' @ fmt_opt (title c) @ nl @
     ''Content: '' @ content c @ nl @ nl"

definition format_context :: "QAAgent \<Rightarrow> string" where
  "format_context a =
     (case processor a of
        None \<Rightarrow> []
      | Some p \<Rightarrow>
          if chunks p = [] then []
          else ''Here is the relevant documentation:'' @ nl @ nl @
               concat (map fmt_chunk (chunks p)))"

text \<open>The request sent to the answer service, and its reply.\<close>

record llm_request =
  model :: string
  max_tokens :: nat
  temperature :: nat
  messages :: "(string \<times> string) list"

datatype block = TextBlock string | OtherBlock string

record llm_message =
  blocks :: "block list"

definition prompt_for :: "string \<Rightarrow> string \<Rightarrow> string" where
  "prompt_for ctx question =
     ''You are a helpful documentation assistant. Based on the provided documentation, '' @ nl @
     ''            answer the following question. If the information is not available in the documentation, '' @ nl @
     ''            clearly state that. Include relevant source URLs in your answer.'' @ nl @
     nl @
     ''            Documentation Context:'' @ nl @
     ''            '' @ ctx @ nl @
     nl @
     ''            Question: '' @ question @ nl @
     nl @
     ''            Please provide a clear and concise answer based solely on the documentation provided above.''"

definition request_for :: "string \<Rightarrow> llm_request" where
  "request_for prompt =
     \<lparr>model = ''claude-3-haiku-20240307'', max_tokens = 1024, temperature = 0,
      messages = [(''user'', prompt)]\<rparr>"

text \<open>\<open>response.content[0].text\<close>\<close>

definition first_text :: "llm_message \<Rightarrow> exn + string" where
  "first_text m =
     (case blocks m of
        [] \<Rightarrow> Inl (Exception ''list index out of range'')
      | TextBlock t # _ \<Rightarrow> Inr t
      | OtherBlock ty # _ \<Rightarrow>
          Inl (Exception ([CHR 0x27] @ ty @ [CHR 0x27] @ '' object has no attribute '' @
                          [CHR 0x27] @ ''text'' @ [CHR 0x27])))"

definition not_initialized_msg :: string where
  "not_initialized_msg =
     ''Error: Documentation not initialized. Please provide a help website URL first.''"

text \<open>
  \<open>answer_question\<close> returns a value, or would raise (\<open>Inl\<close>); it assigns nothing,
  and the state is returned to show that.
\<close>

fun answer_question ::
  "(llm_request \<Rightarrow> exn + llm_message) \<Rightarrow> astate \<Rightarrow> string \<Rightarrow> (exn + string) \<times> astate" where
  "answer_question create (a, tr) question =
     (case processor a of
        None \<Rightarrow> (Inr not_initialized_msg, (a, tr))
      | Some p \<Rightarrow>
          (let attempt =
             (case create (request_for (prompt_for (format_context a) question)) of
                Inl e \<Rightarrow> Inl e
              | Inr m \<Rightarrow> first_text m)
           in case attempt of
                Inr answer \<Rightarrow> (Inr answer, (a, tr))
              | Inl e \<Rightarrow>
                  (Inr (''Error generating answer: '' @ str e),
                   (a, LogError (''Error generating answer: '' @ str e) # tr))))"

text \<open>The URLs for which a GET was issued, the most recent first.\<close>

fun fetched :: "event list \<Rightarrow> string list" where
  "fetched [] = []"
| "fetched (Get u got # es) = u # fetched es"
| "fetched (LogError m # es) = fetched es"
| "fetched (LogInfo m # es) = fetched es"

text \<open>
  A GET succeeded when neither \<open>requests.get\<close> nor \<open>raise_for_status\<close> raised.
  \<open>fetched_ok\<close> lists the URLs of the GETs that succeeded; \<open>no_refetch\<close> says that
  no GET was issued for a URL after a GET for it had succeeded.
\<close>

definition succeeded :: "exn + response \<Rightarrow> bool" where
  "succeeded got = (case fetch got of Inl e \<Rightarrow> False | Inr r \<Rightarrow> True)"

fun fetched_ok :: "event list \<Rightarrow> string list" where
  "fetched_ok [] = []"
| "fetched_ok (Get u got # es) = (if succeeded got then u # fetched_ok es else fetched_ok es)"
| "fetched_ok (LogError m # es) = fetched_ok es"
| "fetched_ok (LogInfo m # es) = fetched_ok es"

fun no_refetch :: "event list \<Rightarrow> bool" where
  "no_refetch [] = True"
| "no_refetch (Get u got # es) = (u \<notin> set (fetched_ok es) \<and> no_refetch es)"
| "no_refetch (LogError m # es) = no_refetch es"
| "no_refetch (LogInfo m # es) = no_refetch es"

section \<open>The filter as the specification words it\<close>

text \<open>
  The specification describes the filter by the host and by the end of the path.  This
  definition follows those words, for comparison with \<open>is_valid_url\<close>.
\<close>

definition spec_admissible ::
  "(string \<Rightarrow> exn + ParseResult) \<Rightarrow> string \<Rightarrow> string \<Rightarrow> bool" where
  "spec_admissible parse base u =
     (case parse u of
        Inl e \<Rightarrow> False
      | Inr a \<Rightarrow>
          (case parse base of
             Inl e \<Rightarrow> False
           | Inr b \<Rightarrow> netloc a = netloc b \<and>
                       \<not> (\<exists>ext \<in> set blocked_exts. endswith (path a) ext)))"

section \<open>Example sites\<close>

text \<open>
  A small site on the host \<open>h\<close>, used to run the crawler: its home page links to a
  second page, to an image on another host, to a stylesheet, and twice to a page that
  does not exist.  Links are absolute, so \<open>urljoin\<close> returns them as they are.
\<close>

definition anchor :: "string \<Rightarrow> string \<Rightarrow> node" where
  "anchor target label = Element ''a'' [(''href'', target)] [Text label]"

definition page_200 :: "string \<Rightarrow> soup \<Rightarrow> exn + response" where
  "page_200 u doc = Inr \<lparr>status_code = 200, reason = ''OK'', resp_url = u, html = doc\<rparr>"

definition page_404 :: "string \<Rightarrow> exn + response" where
  "page_404 u = Inr \<lparr>status_code = 404, reason = ''Not Found'', resp_url = u, html = []\<rparr>"

definition static_site :: "(string \<Rightarrow> exn + response) \<Rightarrow> env" where
  "static_site web =
     \<lparr>parse_url = urlparse, join_url = (\<lambda>b h. Inr h), requests_get = (\<lambda>tr u. web u)\<rparr>"

definition docs_home :: soup where
  "docs_home =
     [Element ''html'' []
        [Element ''head'' [] [Element ''title'' [] [Text ''Home'']],
         Element ''body'' []
           [Element ''nav'' [] [anchor ''http://h/menu'' ''Menu''],
            Element ''main'' []
              [Text ''Welcome'',
               anchor ''http://h/docs/q'' ''Q'',
               anchor ''https://cdn.example.com/logo.png'' ''logo'',
               anchor ''http://h/style.css'' ''style'',
               anchor ''http://h/missing'' ''gone'',
               anchor ''http://h/missing'' ''gone again'']]]]"

definition docs_q :: soup where
  "docs_q =
     [Element ''html'' []
        [Element ''body'' []
           [Element ''main'' [] [Text ''Answers'', anchor ''http://h/'' ''back'']]]]"

definition docs_site :: env where
  "docs_site = static_site (\<lambda>u.
     if u = ''http://h/'' then page_200 u docs_home
     else if u = ''http://h/docs/q'' then page_200 u docs_q
     else page_404 u)"

text \<open>A site whose only page has an empty \<open>body\<close>.\<close>

definition blank_site :: env where
  "blank_site = static_site (\<lambda>u.
     if u = ''http://h/'' then page_200 u [Element ''html'' [] [Element ''body'' [] []]]
     else page_404 u)"

text \<open>A site that cannot be reached: every GET raises.\<close>

definition down_site :: env where
  "down_site = static_site (\<lambda>u. Inl (Exception ''Connection refused''))"

section \<open>Example pages\<close>

text \<open>
  A \<open>main\<close> element whose text nodes are \<open>A\<close>, white space, and \<open>B\<close> inside
  other markup; a page that holds it between navigation, header, footer, script and
  style elements; and the same page with an \<open>article\<close> element before the
  \<open>main\<close> element.
\<close>

definition main_AB :: node where
  "main_AB = Element ''main'' []
     [Element ''h1'' [] [Text ''A''], Text [CHR 0x0A, CHR '' ''], Element ''p'' [] [Text '' B '']]"

definition chrome_before :: "node list" where
  "chrome_before =
     [Element ''nav'' [] [anchor ''http://h/'' ''Home''],
      Element ''header'' [] [Text ''Site header'']]"

definition chrome_after :: "node list" where
  "chrome_after =
     [Element ''footer'' [] [Text ''Imprint''],
      Element ''script'' [] [Text ''var x = 1;''],
      Element ''style'' [] [Text ''p { color: red }'']]"

definition scenario_page :: soup where
  "scenario_page =
     [Element ''html'' [] [Element ''body'' [] (chrome_before @ [main_AB] @ chrome_after)]]"

definition article_first_page :: soup where
  "article_first_page =
     [Element ''html'' []
        [Element ''body'' []
           (chrome_before @ [Element ''article'' [] [Text ''X''], main_AB] @ chrome_after)]]"

text \<open>A page whose \<open>title\<close> element is empty.\<close>

definition empty_title_page :: soup where
  "empty_title_page =
     [Element ''html'' []
        [Element ''head'' [] [Element ''title'' [] []],
         Element ''body'' [] [Element ''main'' [] [Text ''Hello'']]]]"

text \<open>
  \<open>urljoin(base, url)\<close> for a \<open>url\<close> that is absolute: both arguments are parsed,
  so the call raises whatever \<open>urlparse\<close> raises on one of them, and the absolute URL
  is returned as it is.  (An empty \<open>url\<close> gives the base, an empty base the
  \<open>url\<close>, without parsing.)  Relative references, which \<open>urljoin\<close> resolves against
  the base, do not occur on the example pages.
\<close>

definition urljoin_abs :: "string \<Rightarrow> string \<Rightarrow> exn + string" where
  "urljoin_abs base ref =
     (if ref = [] then Inr base
      else if base = [] then Inr ref
      else case urlparse base of
             Inl e \<Rightarrow> Inl e
           | Inr b \<Rightarrow> (case urlparse ref of Inl e \<Rightarrow> Inl e | Inr r \<Rightarrow> Inr ref))"

text \<open>
  A site whose home page links first to \<open>http://[::1\<close>, on which \<open>urlparse\<close>
  raises, and then to a page of the site.
\<close>

definition bad_href_home :: soup where
  "bad_href_home =
     [Element ''html'' []
        [Element ''body'' []
           [Element ''main'' []
              [Text ''Hi'',
               anchor ''http://[::1'' ''broken'',
               anchor ''http://h/docs/q'' ''Q'']]]]"

definition bad_href_site :: env where
  "bad_href_site =
     \<lparr>parse_url = urlparse, join_url = urljoin_abs,
      requests_get = (\<lambda>tr u.
        if u = ''http://h/'' then page_200 u bad_href_home
        else if u = ''http://h/docs/q'' then page_200 u docs_q
        else page_404 u)\<rparr>"

section \<open>Facts about the crawl\<close>

lemma is_valid_url_total: "\<exists>b. is_valid_url parse base u = Inr b"
  by (cases "is_valid_url_body parse base u") (auto simp: is_valid_url_def)

lemma crawl_page_visited:
  "u \<in> visited_urls p \<Longrightarrow> crawl_page (Suc n) E (p, tr) u = Returned (p, tr)"
  by simp

lemma crawl_page_invalid:
  "is_valid_url (parse_url E) (base_url p) u = Inr False \<Longrightarrow>
   crawl_page (Suc n) E (p, tr) u = Returned (p, tr)"
  by simp

lemma crawl_page_fetch_failed:
  "u \<notin> visited_urls p \<Longrightarrow> is_valid_url (parse_url E) (base_url p) u = Inr True \<Longrightarrow>
   fetch (requests_get E tr u) = Inl e \<Longrightarrow>
   crawl_page (Suc n) E (p, tr) u =
     Returned (p, LogError (''Error crawling '' @ u @ '': '' @ str e) #
                  Get u (requests_get E tr u) # tr)"
  by (cases "requests_get E tr u") (auto simp: fetch_def Let_def split: sum.splits)

lemma crawl_page_fetched:
  "u \<notin> visited_urls p \<Longrightarrow> is_valid_url (parse_url E) (base_url p) u = Inr True \<Longrightarrow>
   fetch (requests_get E tr u) = Inr r \<Longrightarrow>
   crawl_page (Suc n) E (p, tr) u =
     except_log u
       (crawl_links n E u
          (store_chunk (fst (extract_content (html r) u))
             (p\<lparr>visited_urls := insert u (visited_urls p)\<rparr>),
           Get u (requests_get E tr u) # tr)
          (find_all_a_href (snd (extract_content (html r) u))))"
  by (cases "requests_get E tr u") (auto simp: fetch_def Let_def split: sum.splits prod.splits)


lemma except_log_cases:
  "(\<exists>s. x = Returned s \<and> except_log u x = Returned s) \<or>
   (\<exists>s. x = Halted s \<and> except_log u x = Halted s) \<or>
   (\<exists>e p tr. x = Raised e (p, tr) \<and>
      except_log u x = Returned (p, LogError (''Error crawling '' @ u @ '': '' @ str e) # tr))"
  by (cases x) auto

lemma state_of_except_log:
  "\<exists>p tr. state_of x = (p, tr) \<and>
     (state_of (except_log u x) = (p, tr) \<or>
      (\<exists>m. state_of (except_log u x) = (p, LogError m # tr)))"
  by (cases x) auto

lemma crawl_links_join_failed:
  "join_url E u (href l) = Inl e \<Longrightarrow> crawl_links (Suc n) E u s (l # ls) = Raised e s"
  by (simp del: crawl_page.simps)

lemma crawl_links_step:
  "join_url E u (href l) = Inr v \<Longrightarrow> crawl_page n E s v = Returned s' \<Longrightarrow>
   crawl_links (Suc n) E u s (l # ls) = crawl_links n E u s' ls"
  by (simp del: crawl_page.simps)

lemma crawl_links_raised:
  "join_url E u (href l) = Inr v \<Longrightarrow> crawl_page n E s v = Raised e s' \<Longrightarrow>
   crawl_links (Suc n) E u s (l # ls) = Raised e s'"
  by (simp del: crawl_page.simps)

lemma crawl_links_halted:
  "join_url E u (href l) = Inr v \<Longrightarrow> crawl_page n E s v = Halted s' \<Longrightarrow>
   crawl_links (Suc n) E u s (l # ls) = Halted s'"
  by (simp del: crawl_page.simps)


lemma crawl_links_Nil: "crawl_links n E u s [] = Returned s"
  by (cases n) (simp_all del: crawl_page.simps)

lemma crawl_preserves:
  fixes I :: "cstate \<Rightarrow> bool"
  assumes log: "\<And>p tr m. I (p, tr) \<Longrightarrow> I (p, LogError m # tr)"
    and bad: "\<And>p tr u e. I (p, tr) \<Longrightarrow> u \<notin> visited_urls p \<Longrightarrow>
                is_valid_url (parse_url E) (base_url p) u = Inr True \<Longrightarrow>
                fetch (requests_get E tr u) = Inl e \<Longrightarrow>
                I (p, Get u (requests_get E tr u) # tr)"
    and good: "\<And>p tr u r. I (p, tr) \<Longrightarrow> u \<notin> visited_urls p \<Longrightarrow>
                is_valid_url (parse_url E) (base_url p) u = Inr True \<Longrightarrow>
                fetch (requests_get E tr u) = Inr r \<Longrightarrow>
                I (store_chunk (fst (extract_content (html r) u))
                     (p\<lparr>visited_urls := insert u (visited_urls p)\<rparr>),
                   Get u (requests_get E tr u) # tr)"
  shows "(\<forall>s u. I s \<longrightarrow> I (state_of (crawl_page n E s u))) \<and>
         (\<forall>s v ls. I s \<longrightarrow> I (state_of (crawl_links n E v s ls)))"
proof (induction n)
  case 0
  have "I (state_of (crawl_links 0 E v s ls))" if "I s" for s v ls
    using that by (cases ls) simp_all
  then show ?case by simp
next
  case (Suc n)
  have page: "I (state_of (crawl_page (Suc n) E s u))" if Is: "I s" for s u
  proof -
    obtain p tr where s: "s = (p, tr)" by (cases s)
    obtain b where b: "is_valid_url (parse_url E) (base_url p) u = Inr b"
      using is_valid_url_total by blast
    show ?thesis
    proof (cases "u \<in> visited_urls p \<or> \<not> b")
      case True
      then have "crawl_page (Suc n) E (p, tr) u = Returned (p, tr)"
        using b crawl_page_visited crawl_page_invalid by (cases b) auto
      with Is s show ?thesis by simp
    next
      case False
      then have nv: "u \<notin> visited_urls p"
        and valid: "is_valid_url (parse_url E) (base_url p) u = Inr True"
        using b by auto
      show ?thesis
      proof (cases "fetch (requests_get E tr u)")
        case (Inl e)
        have "I (p, Get u (requests_get E tr u) # tr)"
          using bad Is s nv valid Inl by blast
        then have "I (p, LogError (''Error crawling '' @ u @ '': '' @ str e) #
                         Get u (requests_get E tr u) # tr)"
          by (rule log)
        then show ?thesis
          using crawl_page_fetch_failed[OF nv valid Inl, of n] s by simp
      next
        case (Inr r)
        let ?s1 = "(store_chunk (fst (extract_content (html r) u))
                      (p\<lparr>visited_urls := insert u (visited_urls p)\<rparr>),
                    Get u (requests_get E tr u) # tr)"
        let ?x = "crawl_links n E u ?s1 (find_all_a_href (snd (extract_content (html r) u)))"
        have "I ?s1" using good Is s nv valid Inr by blast
        then have Ix: "I (state_of ?x)" using Suc.IH by blast
        have eq: "crawl_page (Suc n) E s u = except_log u ?x"
          using crawl_page_fetched[OF nv valid Inr, of n] s by simp
        obtain p' tr' where x: "state_of ?x = (p', tr')"
          and d: "state_of (except_log u ?x) = (p', tr') \<or>
                  (\<exists>m. state_of (except_log u ?x) = (p', LogError m # tr'))"
          using state_of_except_log[of ?x u] by blast
        from d show ?thesis
        proof
          assume "state_of (except_log u ?x) = (p', tr')"
          with Ix x eq show ?thesis by simp
        next
          assume "\<exists>m. state_of (except_log u ?x) = (p', LogError m # tr')"
          then obtain m where "state_of (except_log u ?x) = (p', LogError m # tr')" ..
          moreover have "I (p', LogError m # tr')" using Ix x log by simp
          ultimately show ?thesis using eq by simp
        qed
      qed
    qed
  qed
  have links: "I (state_of (crawl_links (Suc n) E v s ls))" if Is: "I s" for s v ls
  proof (cases ls)
    case Nil
    with Is show ?thesis by (simp add: crawl_links_Nil)
  next
    case (Cons l ls')
    show ?thesis
    proof (cases "join_url E v (href l)")
      case (Inl e)
      with Is Cons show ?thesis by (simp add: crawl_links_join_failed)
    next
      case (Inr w)
      have Ip: "I (state_of (crawl_page n E s w))" using Suc.IH Is by blast
      show ?thesis
      proof (cases "crawl_page n E s w")
        case (Returned s')
        then have "I s'" using Ip by simp
        then have "I (state_of (crawl_links n E v s' ls'))" using Suc.IH by blast
        then show ?thesis using crawl_links_step[OF Inr Returned] Cons by simp
      next
        case (Raised e s')
        then show ?thesis using Ip crawl_links_raised[OF Inr Raised] Cons by simp
      next
        case (Halted s')
        then show ?thesis using Ip crawl_links_halted[OF Inr Halted] Cons by simp
      qed
    qed
  qed
  from page links show ?case by blast
qed

lemma store_chunk_fields [simp]:
  "base_url (store_chunk c p) = base_url p"
  "visited_urls (store_chunk c p) = visited_urls p"
  by (simp_all add: store_chunk_def split: option.split)

lemma is_valid_url_iff:
  "is_valid_url parse base u = Inr True \<longleftrightarrow>
   (\<exists>a b. parse u = Inr a \<and> parse base = Inr b \<and> netloc a = netloc b \<and>
          \<not> str_in ''.png'' u \<and> \<not> str_in ''.jpg'' u \<and>
          \<not> str_in ''.css'' u \<and> \<not> str_in ''.js'' u)"
  by (auto simp: is_valid_url_def is_valid_url_body_def blocked_exts_def split: sum.splits)

lemma no_refetch_distinct: "no_refetch tr \<Longrightarrow> distinct (fetched_ok tr)"
  by (induction tr rule: no_refetch.induct) auto

lemma raise_for_status_ok:
  "raise_for_status r = Inr () \<longleftrightarrow> \<not> (400 \<le> status_code r \<and> status_code r < 600)"
  by (auto simp: raise_for_status_def)

lemma fetch_Inr:
  "fetch got = Inr r \<longleftrightarrow> got = Inr r \<and> raise_for_status r = Inr ()"
  by (auto simp: fetch_def split: sum.splits)

lemma extract_content_Some:
  "fst (extract_content doc u) = Some c \<Longrightarrow>
   url c = u \<and> find_main_content (decompose_all chrome_selectors doc) \<noteq> None"
  by (auto simp: extract_content_def Let_def split: option.splits)

lemma chunks_store_chunk:
  "set (chunks (store_chunk c p)) = set (chunks p) \<union> (case c of None \<Rightarrow> {} | Some ch \<Rightarrow> {ch})"
  by (simp add: store_chunk_def split: option.split)

lemma str_nat_0: "str_nat 0 = ''0''"
  by (simp add: str_nat.simps digit_def)

lemma matches_decompose: "matches sel (decompose sels nd) = matches sel nd"
  by (cases nd; cases sel) simp_all

lemma matches_any_decompose: "matches_any sels' (decompose sels nd) = matches_any sels' nd"
  by (simp add: matches_any_def matches_decompose)

lemma descendants_decompose_clean:
  "d \<in> set (descendants (decompose sels nd)) \<Longrightarrow> \<not> matches_any sels nd \<Longrightarrow>
   \<not> matches_any sels d"
proof (induction nd arbitrary: d)
  case (Text s)
  then show ?case by simp
next
  case (Element n a cs)
  let ?cs' = "filter (\<lambda>c. \<not> matches_any sels c) (map (decompose sels) cs)"
  from Element.prems(1) consider "d = Element n a ?cs'"
    | c' where "c' \<in> set ?cs'" "d \<in> set (descendants c')"
    by auto
  then show ?case
  proof cases
    case 1
    have "matches_any sels (Element n a ?cs') = matches_any sels (Element n a cs)"
      using matches_any_decompose[of sels sels "Element n a cs"] by simp
    with 1 Element.prems(2) show ?thesis by simp
  next
    case 2
    then obtain c where c: "c \<in> set cs" "c' = decompose sels c" "\<not> matches_any sels c'"
      by auto
    then have "\<not> matches_any sels c" by (simp add: matches_any_decompose)
    with Element.IH[OF c(1)] 2(2) c(2) show ?thesis by blast
  qed
qed

lemma descendants_decompose_all_clean:
  "d \<in> set (concat (map descendants (decompose_all sels doc))) \<Longrightarrow> \<not> matches_any sels d"
  by (auto simp: decompose_all_def matches_any_decompose dest: descendants_decompose_clean)

lemma descendants_trans:
  "d \<in> set (descendants m) \<Longrightarrow> m \<in> set (descendants nd) \<Longrightarrow> d \<in> set (descendants nd)"
proof (induction nd)
  case (Text s)
  then show ?case by simp
next
  case (Element n a cs)
  then show ?case by auto
qed

lemma find_Some_in: "List.find P xs = Some x \<Longrightarrow> x \<in> set xs \<and> P x"
  by (induction xs) (auto split: if_splits)

lemma select_one_in:
  "select_one sels doc = Some m \<Longrightarrow> m \<in> set (concat (map descendants doc)) \<and> matches_any sels m"
  unfolding select_one_def by (rule find_Some_in)

lemma descendants_in_forest:
  "d \<in> set (descendants m) \<Longrightarrow> m \<in> set (concat (map descendants doc)) \<Longrightarrow>
   d \<in> set (concat (map descendants doc))"
  by (auto dest: descendants_trans)

text \<open>
  The title of a chunk: the URL when no \<open>title\<close> element is left after the removal
  of the stripped elements, and the text of the first \<open>title\<close> element when that text
  is its only child.
\<close>

lemma title_of_chunk:
  assumes "fst (extract_content doc u) = Some c"
  shows "(select_one [Tag ''title''] (decompose_all chrome_selectors doc) = None
            \<longrightarrow> title c = Some u) \<and>
         (\<forall>a t. select_one [Tag ''title''] (decompose_all chrome_selectors doc)
                    = Some (Element ''title'' a [Text t])
            \<longrightarrow> title c = Some t)"
  using assms by (auto simp: extract_content_def Let_def split: option.splits)

text \<open>Events are only added, and a call on an unvisited URL that passes the filter
  records its GET.\<close>

lemma crawl_trace_extends:
  "(\<forall>s u. (\<exists>pre. snd s = pre @ tr0) \<longrightarrow>
       (\<exists>pre. snd (state_of (crawl_page n E s u)) = pre @ tr0)) \<and>
   (\<forall>s v ls. (\<exists>pre. snd s = pre @ tr0) \<longrightarrow>
       (\<exists>pre. snd (state_of (crawl_links n E v s ls)) = pre @ tr0))"
proof -
  define I :: "cstate \<Rightarrow> bool" where "I = (\<lambda>s. \<exists>pre. snd s = pre @ tr0)"
  have "\<And>q t m. I (q, t) \<Longrightarrow> I (q, LogError m # t)"
    by (auto simp: I_def intro: exI[of _ "_ # _"])
  moreover have "\<And>q t u. I (q, t) \<Longrightarrow> I (q, Get u (requests_get E t u) # t)"
    by (auto simp: I_def intro: exI[of _ "_ # _"])
  moreover have "\<And>q q' t u. I (q, t) \<Longrightarrow> I (q', Get u (requests_get E t u) # t)"
    by (auto simp: I_def intro: exI[of _ "_ # _"])
  ultimately show ?thesis
    using crawl_preserves[of I E n] unfolding I_def by blast
qed

lemma crawl_page_issues_get:
  assumes nv: "u \<notin> visited_urls p"
    and valid: "is_valid_url (parse_url E) (base_url p) u = Inr True"
  shows "Get u (requests_get E tr u) \<in> set (snd (state_of (crawl_page (Suc k) E (p, tr) u)))"
proof (cases "fetch (requests_get E tr u)")
  case (Inl e)
  then show ?thesis using crawl_page_fetch_failed[OF nv valid Inl, of k] by simp
next
  case (Inr r)
  let ?tr1 = "Get u (requests_get E tr u) # tr"
  let ?s1 = "(store_chunk (fst (extract_content (html r) u))
                (p\<lparr>visited_urls := insert u (visited_urls p)\<rparr>), ?tr1)"
  let ?x = "crawl_links k E u ?s1 (find_all_a_href (snd (extract_content (html r) u)))"
  have eq: "crawl_page (Suc k) E (p, tr) u = except_log u ?x"
    using crawl_page_fetched[OF nv valid Inr, of k] by simp
  have "\<exists>pre. snd (state_of ?x) = pre @ ?tr1"
    using crawl_trace_extends[of ?tr1 k E] by (metis append_Nil snd_conv)
  then obtain pre where pre: "snd (state_of ?x) = pre @ ?tr1" ..
  obtain p' tr' where x: "state_of ?x = (p', tr')"
    and d: "state_of (except_log u ?x) = (p', tr') \<or>
            (\<exists>m. state_of (except_log u ?x) = (p', LogError m # tr'))"
    using state_of_except_log[of ?x u] by blast
  from x pre have "Get u (requests_get E tr u) \<in> set tr'" by simp
  with d eq show ?thesis by auto
qed

section \<open>The URL filter\<close>

text \<open>
  The filter itself is total: \<open>is_valid_url\<close> returns a boolean for every string and
  every behaviour of the parser, and never raises; when the parser raises on the URL or
  on the base URL the result is \<open>False\<close>.  \<open>crawl_page\<close> called on a URL that the
  parser rejects returns at once: nothing is fetched, nothing is logged, and the state
  is unchanged.  What happens to a malformed link found on a page is taken up in the
  last section.
\<close>

theorem is_valid_url_never_raises:
  "(\<exists>b. is_valid_url parse base u = Inr b) \<and>
   ((\<exists>e. parse u = Inl e) \<or> (\<exists>e. parse base = Inl e)
      \<longrightarrow> is_valid_url parse base u = Inr False) \<and>
   ((\<exists>e. parse_url E u = Inl e) \<longrightarrow>
      crawl_page (Suc n) E (p, tr) u = Returned (p, tr))"
proof (intro conjI impI)
  show "\<exists>b. is_valid_url parse base u = Inr b" by (rule is_valid_url_total)
next
  assume "(\<exists>e. parse u = Inl e) \<or> (\<exists>e. parse base = Inl e)"
  then show "is_valid_url parse base u = Inr False"
    by (auto simp: is_valid_url_def is_valid_url_body_def split: sum.splits)
next
  assume "\<exists>e. parse_url E u = Inl e"
  then have "is_valid_url (parse_url E) (base_url p) u = Inr False"
    by (auto simp: is_valid_url_def is_valid_url_body_def split: sum.splits)
  then show "crawl_page (Suc n) E (p, tr) u = Returned (p, tr)"
    by (rule crawl_page_invalid)
qed

lemma urlparse_bad_bracket: "urlparse ''http://[::1'' = Inl (Exception ''Invalid IPv6 URL'')"
  by code_simp

theorem is_valid_url_never_raises_witness:
  "urlparse ''http://[::1'' = Inl (Exception ''Invalid IPv6 URL'') \<and>
   is_valid_url urlparse ''http://h/'' ''http://[::1'' = Inr False \<and>
   crawl_page (Suc 0) \<lparr>parse_url = urlparse, join_url = (\<lambda>b h. Inr h),
                        requests_get = (\<lambda>tr u. Inl (Exception ''unreachable''))\<rparr>
     (new_processor ''http://h/'', []) ''http://[::1'' = Returned (new_processor ''http://h/'', [])"
  using is_valid_url_never_raises
          [of urlparse "''http://h/''" "''http://[::1''"
              "\<lparr>parse_url = urlparse, join_url = (\<lambda>b h. Inr h),
                requests_get = (\<lambda>tr u. Inl (Exception ''unreachable''))\<rparr>"
              0 "new_processor ''http://h/''" "[]"]
        urlparse_bad_bracket
  by simp

section \<open>Context assembly\<close>

text \<open>
  C7.  \<open>format_context\<close> returns the empty string, without the preamble, when the
  agent has no processor or its processor holds no chunk; \<open>answer_question\<close> on an
  agent without processor returns the fixed message as a value, logs nothing and leaves
  the agent as it is.
\<close>

theorem empty_context_and_uninitialized:
  "(processor a = None \<longrightarrow> format_context a = []) \<and>
   (\<forall>p. processor a = Some p \<and> chunks p = [] \<longrightarrow> format_context a = []) \<and>
   (processor a = None \<longrightarrow>
      answer_question create (a, tr) q =
        (Inr ''Error: Documentation not initialized. Please provide a help website URL first.'',
         (a, tr)))"
  by (simp add: format_context_def not_initialized_msg_def)

theorem empty_context_and_uninitialized_witness:
  "format_context \<lparr>processor = None\<rparr> = [] \<and>
   format_context \<lparr>processor = Some (new_processor ''http://h/'')\<rparr> = [] \<and>
   answer_question (\<lambda>r. Inl (Exception ''down'')) (\<lparr>processor = None\<rparr>, []) ''why?'' =
     (Inr ''Error: Documentation not initialized. Please provide a help website URL first.'',
      (\<lparr>processor = None\<rparr>, []))"
  using empty_context_and_uninitialized
          [of "\<lparr>processor = None\<rparr>" "\<lambda>r. Inl (Exception ''down'')" "[]" "''why?''"]
        empty_context_and_uninitialized
          [of "\<lparr>processor = Some (new_processor ''http://h/'')\<rparr>"]
  by (simp add: new_processor_def)

text \<open>
  C8.  \<open>answer_question\<close> always returns a string and never raises, and it leaves the
  agent (its processor with the visited set and the chunks) unchanged.  When the call
  of the answer service raises, or its reply has no text in its first block, the string
  returned is \<open>Error generating answer: \<close> followed by the text of the exception,
  which is also logged.
\<close>

theorem collaborator_failure_returned:
  "(\<exists>answer. fst (answer_question create (a, tr) q) = Inr answer) \<and>
   fst (snd (answer_question create (a, tr) q)) = a \<and>
   (\<forall>p e. processor a = Some p \<and>
      (create (request_for (prompt_for (format_context a) q)) = Inl e \<or>
       (\<exists>m. create (request_for (prompt_for (format_context a) q)) = Inr m \<and>
            first_text m = Inl e))
      \<longrightarrow> answer_question create (a, tr) q =
            (Inr (''Error generating answer: '' @ str e),
             (a, LogError (''Error generating answer: '' @ str e) # tr)))"
  by (auto simp: Let_def split: option.splits sum.splits)

theorem collaborator_failure_returned_witness:
  "answer_question (\<lambda>r. Inl (Exception ''rate limited''))
     (\<lparr>processor = Some (new_processor ''http://h/'')\<rparr>, []) ''why?'' =
   (Inr ''Error generating answer: rate limited'',
    (\<lparr>processor = Some (new_processor ''http://h/'')\<rparr>,
     [LogError ''Error generating answer: rate limited'']))"
  using collaborator_failure_returned
          [of "\<lambda>r. Inl (Exception ''rate limited'')"
              "\<lparr>processor = Some (new_processor ''http://h/'')\<rparr>" "[]" "''why?''"]
  by simp

section \<open>The visited set\<close>

text \<open>
  C9.  During a call of \<open>crawl_page\<close>, whether it returns or is cut off, the visited
  set only grows, and if every URL in it passed the filter of the seed before the call,
  so does every URL in it afterwards: the parser gives it the network location of the
  seed, and none of \<open>.png\<close>, \<open>.jpg\<close>, \<open>.css\<close>, \<open>.js\<close> occurs in it.  A crawl
  starts with the empty set.
\<close>

theorem visited_urls_admissible:
  assumes "\<forall>u \<in> visited_urls p. is_valid_url (parse_url E) (base_url p) u = Inr True"
  shows "visited_urls p \<subseteq> visited_urls (fst (state_of (crawl_page n E (p, tr) v))) \<and>
         (\<forall>u \<in> visited_urls (fst (state_of (crawl_page n E (p, tr) v))).
            \<exists>a b. parse_url E u = Inr a \<and> parse_url E (base_url p) = Inr b \<and>
                  netloc a = netloc b \<and>
                  \<not> str_in ''.png'' u \<and> \<not> str_in ''.jpg'' u \<and>
                  \<not> str_in ''.css'' u \<and> \<not> str_in ''.js'' u)"
proof -
  define I :: "cstate \<Rightarrow> bool" where
    "I = (\<lambda>(q, t). base_url q = base_url p \<and> visited_urls p \<subseteq> visited_urls q \<and>
            (\<forall>u \<in> visited_urls q. is_valid_url (parse_url E) (base_url p) u = Inr True))"
  have "I (p, tr)" using assms by (simp add: I_def)
  moreover have "\<And>q t m. I (q, t) \<Longrightarrow> I (q, LogError m # t)" by (simp add: I_def)
  moreover have "\<And>q t u e. I (q, t) \<Longrightarrow> I (q, Get u (requests_get E t u) # t)"
    by (simp add: I_def)
  moreover have "\<And>q t u r. I (q, t) \<Longrightarrow>
      is_valid_url (parse_url E) (base_url q) u = Inr True \<Longrightarrow>
      I (store_chunk (fst (extract_content (html r) u))
           (q\<lparr>visited_urls := insert u (visited_urls q)\<rparr>), Get u (requests_get E t u) # t)"
    by (auto simp: I_def)
  ultimately have "I (state_of (crawl_page n E (p, tr) v))"
    using crawl_preserves[of I E n] by blast
  then show ?thesis
    by (cases "state_of (crawl_page n E (p, tr) v)") (auto simp: I_def is_valid_url_iff)
qed

lemma docs_site_visited:
  "visited_urls (fst (state_of (crawl_page 9 docs_site (new_processor ''http://h/'', []) ''http://h/'')))
     = {''http://h/'', ''http://h/docs/q''}"
  by code_simp

theorem visited_urls_admissible_witness:
  "visited_urls (new_processor ''http://h/'') = {} \<and>
   visited_urls (fst (state_of (crawl_page 9 docs_site (new_processor ''http://h/'', []) ''http://h/'')))
     = {''http://h/'', ''http://h/docs/q''} \<and>
   (\<exists>a b. urlparse ''http://h/docs/q'' = Inr a \<and> urlparse ''http://h/'' = Inr b \<and>
          netloc a = netloc b \<and>
          \<not> str_in ''.png'' ''http://h/docs/q'' \<and> \<not> str_in ''.jpg'' ''http://h/docs/q'' \<and>
          \<not> str_in ''.css'' ''http://h/docs/q'' \<and> \<not> str_in ''.js'' ''http://h/docs/q'')"
proof -
  have h: "\<forall>u \<in> visited_urls (new_processor ''http://h/'').
      is_valid_url (parse_url docs_site) (base_url (new_processor ''http://h/'')) u = Inr True"
    by (simp add: new_processor_def)
  show ?thesis
    using visited_urls_admissible [OF h, of 9 "[]" "''http://h/''"] docs_site_visited
    by (simp add: new_processor_def docs_site_def static_site_def)
qed

section \<open>Which URLs are fetched\<close>

text \<open>
  C1, as the specification states it, fails: \<open>is_valid_url\<close> looks for the four
  extensions anywhere in the URL string, not at the end of the path.  The URL
  \<open>http://h/api.json\<close> is on the host of the seed and its path does not end in one of
  the extensions, yet it is rejected, because \<open>.js\<close> occurs in it.
\<close>

theorem json_url_rejected:
  "spec_admissible urlparse ''http://h/'' ''http://h/api.json'' \<and>
   is_valid_url urlparse ''http://h/'' ''http://h/api.json'' = Inr False"
  by code_simp

text \<open>
  Nor does a path that ends in one of the extensions always fail the filter: the parser
  removes tabs, so the path of the URL below ends in \<open>.png\<close>, while \<open>.png\<close> does
  not occur in the URL string, and the URL passes.  The amended statement therefore says
  nothing about the path.
\<close>

lemma tab_in_extension_accepted:
  "map_sum id path (urlparse (''https://h/a.p'' @ [CHR 0x09] @ ''ng'')) = Inr ''/a.png'' \<and>
   is_valid_url urlparse ''https://h/'' (''https://h/a.p'' @ [CHR 0x09] @ ''ng'') = Inr True"
  by code_simp

text \<open>
  C1, amended.  A URL passes the filter if and only if the parser accepts it and the
  base URL, gives both the same network location, and none of \<open>.png\<close>, \<open>.jpg\<close>,
  \<open>.css\<close>, \<open>.js\<close> occurs anywhere in the URL string.  A URL that does not pass is
  dropped by \<open>crawl_page\<close> without a fetch and without a log line, and every GET
  issued during a crawl, returned or cut off, is for a URL that passes.
\<close>

theorem url_filter:
  "is_valid_url parse base u =
     Inr (\<exists>a b. parse u = Inr a \<and> parse base = Inr b \<and> netloc a = netloc b \<and>
                \<not> str_in ''.png'' u \<and> \<not> str_in ''.jpg'' u \<and>
                \<not> str_in ''.css'' u \<and> \<not> str_in ''.js'' u) \<and>
   (is_valid_url (parse_url E) (base_url p) v \<noteq> Inr True \<longrightarrow>
      crawl_page (Suc n) E (p, tr) v = Returned (p, tr)) \<and>
   ((\<forall>w \<in> set (fetched tr). is_valid_url (parse_url E) (base_url p) w = Inr True) \<longrightarrow>
    (\<forall>w \<in> set (fetched (snd (state_of (crawl_page n E (p, tr) v)))).
        is_valid_url (parse_url E) (base_url p) w = Inr True))"
proof (intro conjI impI)
  show "is_valid_url parse base u =
     Inr (\<exists>a b. parse u = Inr a \<and> parse base = Inr b \<and> netloc a = netloc b \<and>
                \<not> str_in ''.png'' u \<and> \<not> str_in ''.jpg'' u \<and>
                \<not> str_in ''.css'' u \<and> \<not> str_in ''.js'' u)"
    using is_valid_url_iff[of parse base u] is_valid_url_total[of parse base u] by auto
next
  assume "is_valid_url (parse_url E) (base_url p) v \<noteq> Inr True"
  then have "is_valid_url (parse_url E) (base_url p) v = Inr False"
    using is_valid_url_total[of "parse_url E" "base_url p" v] by auto
  then show "crawl_page (Suc n) E (p, tr) v = Returned (p, tr)"
    by (rule crawl_page_invalid)
next
  assume h: "\<forall>w \<in> set (fetched tr). is_valid_url (parse_url E) (base_url p) w = Inr True"
  define I :: "cstate \<Rightarrow> bool" where
    "I = (\<lambda>(q, t). base_url q = base_url p \<and>
            (\<forall>w \<in> set (fetched t). is_valid_url (parse_url E) (base_url p) w = Inr True))"
  have "I (p, tr)" using h by (simp add: I_def)
  moreover have "\<And>q t m. I (q, t) \<Longrightarrow> I (q, LogError m # t)" by (simp add: I_def)
  moreover have "\<And>q t u. I (q, t) \<Longrightarrow>
      is_valid_url (parse_url E) (base_url q) u = Inr True \<Longrightarrow>
      I (q, Get u (requests_get E t u) # t)"
    by (auto simp: I_def)
  moreover have "\<And>q t u r. I (q, t) \<Longrightarrow>
      is_valid_url (parse_url E) (base_url q) u = Inr True \<Longrightarrow>
      I (store_chunk (fst (extract_content (html r) u))
           (q\<lparr>visited_urls := insert u (visited_urls q)\<rparr>), Get u (requests_get E t u) # t)"
    by (auto simp: I_def)
  ultimately have "I (state_of (crawl_page n E (p, tr) v))"
    using crawl_preserves[of I E n] by blast
  then show "\<forall>w \<in> set (fetched (snd (state_of (crawl_page n E (p, tr) v)))).
        is_valid_url (parse_url E) (base_url p) w = Inr True"
    by (cases "state_of (crawl_page n E (p, tr) v)") (auto simp: I_def)
qed

lemma docs_site_fetched:
  "fetched (snd (state_of (crawl_page 9 docs_site (new_processor ''http://h/'', []) ''http://h/'')))
     = [''http://h/missing'', ''http://h/missing'', ''http://h/docs/q'', ''http://h/'']"
  by code_simp

lemma docs_site_filter:
  "is_valid_url urlparse ''http://h/'' ''https://cdn.example.com/logo.png'' = Inr False"
  "is_valid_url urlparse ''http://h/'' ''http://h/style.css'' = Inr False"
  "is_valid_url urlparse ''http://h/'' ''http://h/docs/q'' = Inr True"
  by code_simp+

theorem url_filter_witness:
  "is_valid_url urlparse ''http://h/'' ''http://h/style.css'' = Inr False \<and>
   crawl_page (Suc 0) docs_site (new_processor ''http://h/'', []) ''http://h/style.css''
     = Returned (new_processor ''http://h/'', []) \<and>
   fetched [] = [] \<and>
   fetched (snd (state_of (crawl_page 9 docs_site (new_processor ''http://h/'', []) ''http://h/'')))
     = [''http://h/missing'', ''http://h/missing'', ''http://h/docs/q'', ''http://h/''] \<and>
   list_all (\<lambda>w. is_valid_url urlparse ''http://h/'' w = Inr True)
     [''http://h/missing'', ''http://h/missing'', ''http://h/docs/q'', ''http://h/'']"
  using url_filter [of urlparse "''http://h/''" "''http://h/style.css''" docs_site
                      "new_processor ''http://h/''" "''http://h/style.css''" 0 "[]"]
        url_filter [of urlparse "''http://h/''" "''http://h/style.css''" docs_site
                      "new_processor ''http://h/''" "''http://h/''" 9 "[]"]
        docs_site_fetched docs_site_filter
  by (simp add: new_processor_def docs_site_def static_site_def)

section \<open>Fetching a URL again\<close>

text \<open>
  C2, as the specification states it, fails: a URL enters the visited set only after its
  GET has succeeded, so a URL whose GET fails is fetched again each time a link to it is
  met.  On the example site the page \<open>http://h/missing\<close> answers 404 and is linked
  twice from the home page: two GETs are issued for it.
\<close>

theorem failed_url_fetched_twice:
  "\<not> distinct (fetched (snd (state_of
        (process_documentation 9 docs_site (new_processor ''http://h/'', [])))))"
  by code_simp

text \<open>
  C2, amended.  No GET is issued for a URL after a GET for that URL has succeeded, so
  each URL is fetched successfully at most once, however many pages link to it; this
  holds for returned and for cut-off runs, and whatever the site answers.  Every URL
  fetched successfully is in the visited set.  Whenever \<open>crawl_page\<close> is called on
  a URL that passes the filter and is not in the visited set, a GET is issued for it;
  and when that GET fails, the call adds the GET and one error line to the log and
  leaves the processor as it was, so the URL is still not in the visited set and the
  next call on it issues a GET again.
\<close>

theorem no_fetch_after_success:
  assumes "no_refetch tr" and "set (fetched_ok tr) \<subseteq> visited_urls p"
  shows "no_refetch (snd (state_of (crawl_page n E (p, tr) v))) \<and>
         distinct (fetched_ok (snd (state_of (crawl_page n E (p, tr) v)))) \<and>
         set (fetched_ok (snd (state_of (crawl_page n E (p, tr) v))))
           \<subseteq> visited_urls (fst (state_of (crawl_page n E (p, tr) v))) \<and>
         (u \<notin> visited_urls p \<and> is_valid_url (parse_url E) (base_url p) u = Inr True
            \<longrightarrow> Get u (requests_get E tr u)
                  \<in> set (snd (state_of (crawl_page (Suc k) E (p, tr) u)))) \<and>
         (u \<notin> visited_urls p \<and> is_valid_url (parse_url E) (base_url p) u = Inr True \<and>
          fetch (requests_get E tr u) = Inl e
            \<longrightarrow> crawl_page (Suc k) E (p, tr) u =
                  Returned (p, LogError (''Error crawling '' @ u @ '': '' @ str e) #
                               Get u (requests_get E tr u) # tr))"
proof -
  define I :: "cstate \<Rightarrow> bool" where
    "I = (\<lambda>(q, t). no_refetch t \<and> set (fetched_ok t) \<subseteq> visited_urls q)"
  have "I (p, tr)" using assms by (simp add: I_def)
  moreover have "\<And>q t m. I (q, t) \<Longrightarrow> I (q, LogError m # t)" by (simp add: I_def)
  moreover have "\<And>q t u e. I (q, t) \<Longrightarrow> u \<notin> visited_urls q \<Longrightarrow>
      fetch (requests_get E t u) = Inl e \<Longrightarrow> I (q, Get u (requests_get E t u) # t)"
    by (auto simp: I_def succeeded_def)
  moreover have "\<And>q t u r. I (q, t) \<Longrightarrow> u \<notin> visited_urls q \<Longrightarrow>
      I (store_chunk (fst (extract_content (html r) u))
           (q\<lparr>visited_urls := insert u (visited_urls q)\<rparr>), Get u (requests_get E t u) # t)"
    by (auto simp: I_def)
  ultimately have "I (state_of (crawl_page n E (p, tr) v))"
    using crawl_preserves[of I E n] by blast
  then have inv: "no_refetch (snd (state_of (crawl_page n E (p, tr) v))) \<and>
         distinct (fetched_ok (snd (state_of (crawl_page n E (p, tr) v)))) \<and>
         set (fetched_ok (snd (state_of (crawl_page n E (p, tr) v))))
           \<subseteq> visited_urls (fst (state_of (crawl_page n E (p, tr) v)))"
    by (cases "state_of (crawl_page n E (p, tr) v)") (auto simp: I_def no_refetch_distinct)
  have again: "u \<notin> visited_urls p \<and> is_valid_url (parse_url E) (base_url p) u = Inr True
            \<longrightarrow> Get u (requests_get E tr u)
                  \<in> set (snd (state_of (crawl_page (Suc k) E (p, tr) u)))"
    using crawl_page_issues_get by blast
  have failed: "u \<notin> visited_urls p \<and> is_valid_url (parse_url E) (base_url p) u = Inr True \<and>
          fetch (requests_get E tr u) = Inl e
            \<longrightarrow> crawl_page (Suc k) E (p, tr) u =
                  Returned (p, LogError (''Error crawling '' @ u @ '': '' @ str e) #
                               Get u (requests_get E tr u) # tr)"
    using crawl_page_fetch_failed by blast
  from inv again failed show ?thesis by blast
qed


lemma docs_site_fetched_ok:
  "fetched_ok (snd (state_of (crawl_page 9 docs_site (new_processor ''http://h/'', []) ''http://h/'')))
     = [''http://h/docs/q'', ''http://h/'']"
  by code_simp

lemma docs_site_missing:
  "is_valid_url (parse_url docs_site) (base_url (new_processor ''http://h/'')) ''http://h/missing''
     = Inr True"
  "''http://h/missing'' \<notin> visited_urls (new_processor ''http://h/'')"
  "requests_get docs_site t ''http://h/missing'' = page_404 ''http://h/missing''"
  "fetch (page_404 ''http://h/missing'') =
     Inl (Exception ''404 Client Error: Not Found for url: http://h/missing'')"
  "succeeded (page_404 ''http://h/missing'') = False"
proof -
  show "is_valid_url (parse_url docs_site) (base_url (new_processor ''http://h/'')) ''http://h/missing''
     = Inr True"
    by code_simp
  show "''http://h/missing'' \<notin> visited_urls (new_processor ''http://h/'')"
    by (simp add: new_processor_def)
  show "requests_get docs_site t ''http://h/missing'' = page_404 ''http://h/missing''"
    by (simp add: docs_site_def static_site_def)
  show f: "fetch (page_404 ''http://h/missing'') =
     Inl (Exception ''404 Client Error: Not Found for url: http://h/missing'')"
    by code_simp
  show "succeeded (page_404 ''http://h/missing'') = False"
    by (simp add: succeeded_def f)
qed

theorem no_fetch_after_success_witness:
  "no_refetch [] \<and> set (fetched_ok []) \<subseteq> visited_urls (new_processor ''http://h/'') \<and>
   no_refetch (snd (state_of (crawl_page 9 docs_site (new_processor ''http://h/'', []) ''http://h/''))) \<and>
   fetched_ok (snd (state_of (crawl_page 9 docs_site (new_processor ''http://h/'', []) ''http://h/'')))
     = [''http://h/docs/q'', ''http://h/''] \<and>
   crawl_page (Suc 0) docs_site (new_processor ''http://h/'', []) ''http://h/missing'' =
     Returned (new_processor ''http://h/'',
       [LogError ''Error crawling http://h/missing: 404 Client Error: Not Found for url: http://h/missing'',
        Get ''http://h/missing'' (page_404 ''http://h/missing'')]) \<and>
   crawl_page (Suc 0) docs_site
       (new_processor ''http://h/'',
        [LogError ''Error crawling http://h/missing: 404 Client Error: Not Found for url: http://h/missing'',
         Get ''http://h/missing'' (page_404 ''http://h/missing'')])
       ''http://h/missing'' =
     Returned (new_processor ''http://h/'',
       [LogError ''Error crawling http://h/missing: 404 Client Error: Not Found for url: http://h/missing'',
        Get ''http://h/missing'' (page_404 ''http://h/missing''),
        LogError ''Error crawling http://h/missing: 404 Client Error: Not Found for url: http://h/missing'',
        Get ''http://h/missing'' (page_404 ''http://h/missing'')])"
proof -
  let ?tr1 = "[LogError ''Error crawling http://h/missing: 404 Client Error: Not Found for url: http://h/missing'',
               Get ''http://h/missing'' (page_404 ''http://h/missing'')]"
  have h1: "no_refetch []" by simp
  have h2: "set (fetched_ok []) \<subseteq> visited_urls (new_processor ''http://h/'')" by simp
  have n1: "no_refetch ?tr1" by simp
  have s1: "set (fetched_ok ?tr1) \<subseteq> visited_urls (new_processor ''http://h/'')"
    by (simp add: docs_site_missing)
  show ?thesis
    using h1 h2
          no_fetch_after_success [OF h1 h2, where n = 9 and E = docs_site and v = "''http://h/''"
            and u = "''http://h/missing''" and k = 0
            and e = "Exception ''404 Client Error: Not Found for url: http://h/missing''"]
          no_fetch_after_success [OF n1 s1, where n = 0 and E = docs_site and v = "''http://h/''"
            and u = "''http://h/missing''" and k = 0
            and e = "Exception ''404 Client Error: Not Found for url: http://h/missing''"]
          docs_site_fetched_ok docs_site_missing
    by (simp del: crawl_page.simps)
qed

section \<open>The collected chunks\<close>

text \<open>
  C3, as the specification states it, fails: \<open>crawl_page\<close> stores every chunk that
  \<open>extract_content\<close> returns, and \<open>extract_content\<close> returns a chunk whenever a
  content region is found, whatever its text.  A page whose \<open>body\<close> is empty gives a
  stored chunk with the empty string as content.
\<close>

theorem empty_body_record_stored:
  "map content (chunks (fst (state_of
      (process_documentation 9 blank_site (new_processor ''http://h/'', []))))) = ['''']"
  by code_simp

text \<open>
  C3, amended.  At the end of a call of \<open>crawl_page\<close>, returned or cut off, every
  stored chunk comes from a GET of its URL that raised nothing and whose status was
  outside 400 to 599 (\<open>raise_for_status\<close> passed), on a page where a content region
  was found after the navigation, header, footer, script and style elements had been
  removed; the chunk is what \<open>extract_content\<close> gives for that page.  Its content may
  be empty.  A crawl starts with no chunk.
\<close>

theorem chunks_from_fetched_pages:
  assumes "\<forall>c \<in> set (chunks p). \<exists>r. Get (url c) (Inr r) \<in> set tr \<and>
             raise_for_status r = Inr () \<and> fst (extract_content (html r) (url c)) = Some c"
  shows "\<forall>c \<in> set (chunks (fst (state_of (crawl_page n E (p, tr) v)))).
           \<exists>r. Get (url c) (Inr r) \<in> set (snd (state_of (crawl_page n E (p, tr) v))) \<and>
               \<not> (400 \<le> status_code r \<and> status_code r < 600) \<and>
               find_main_content (decompose_all chrome_selectors (html r)) \<noteq> None \<and>
               fst (extract_content (html r) (url c)) = Some c"
proof -
  define I :: "cstate \<Rightarrow> bool" where
    "I = (\<lambda>(q, t). \<forall>c \<in> set (chunks q). \<exists>r. Get (url c) (Inr r) \<in> set t \<and>
             raise_for_status r = Inr () \<and> fst (extract_content (html r) (url c)) = Some c)"
  have "I (p, tr)" using assms by (simp add: I_def)
  moreover have "\<And>q t m. I (q, t) \<Longrightarrow> I (q, LogError m # t)"
    by (fastforce simp: I_def)
  moreover have "\<And>q t u e. I (q, t) \<Longrightarrow> I (q, Get u (requests_get E t u) # t)"
    by (fastforce simp: I_def)
  moreover have "\<And>q t u r. I (q, t) \<Longrightarrow> fetch (requests_get E t u) = Inr r \<Longrightarrow>
      I (store_chunk (fst (extract_content (html r) u))
           (q\<lparr>visited_urls := insert u (visited_urls q)\<rparr>), Get u (requests_get E t u) # t)"
  proof -
    fix q t u r
    assume Iq: "I (q, t)" and f: "fetch (requests_get E t u) = Inr r"
    from f have g: "requests_get E t u = Inr r" and rs: "raise_for_status r = Inr ()"
      by (simp_all add: fetch_Inr)
    show "I (store_chunk (fst (extract_content (html r) u))
           (q\<lparr>visited_urls := insert u (visited_urls q)\<rparr>), Get u (requests_get E t u) # t)"
      unfolding I_def split_conv chunks_store_chunk
    proof
      fix c
      assume "c \<in> set (chunks (q\<lparr>visited_urls := insert u (visited_urls q)\<rparr>)) \<union>
                (case fst (extract_content (html r) u) of None \<Rightarrow> {} | Some ch \<Rightarrow> {ch})"
      then consider "c \<in> set (chunks q)" | "fst (extract_content (html r) u) = Some c"
        by (auto split: option.splits)
      then show "\<exists>r'. Get (url c) (Inr r') \<in> set (Get u (requests_get E t u) # t) \<and>
               raise_for_status r' = Inr () \<and> fst (extract_content (html r') (url c)) = Some c"
      proof cases
        case 1
        with Iq show ?thesis by (fastforce simp: I_def)
      next
        case 2
        then have "url c = u" using extract_content_Some by blast
        with 2 g rs show ?thesis by auto
      qed
    qed
  qed
  ultimately have "I (state_of (crawl_page n E (p, tr) v))"
    using crawl_preserves[of I E n] by blast
  then show ?thesis
    by (cases "state_of (crawl_page n E (p, tr) v)")
       (fastforce simp: I_def raise_for_status_ok dest: extract_content_Some)
qed


lemma docs_site_chunk_urls:
  "map url (chunks (fst (state_of
      (crawl_page 9 docs_site (new_processor ''http://h/'', []) ''http://h/''))))
     = [''http://h/'', ''http://h/docs/q'']"
  by code_simp

theorem chunks_from_fetched_pages_witness:
  "chunks (new_processor ''http://h/'') = [] \<and>
   map url (chunks (fst (state_of
      (crawl_page 9 docs_site (new_processor ''http://h/'', []) ''http://h/''))))
     = [''http://h/'', ''http://h/docs/q''] \<and>
   (\<exists>c r. c \<in> set (chunks (fst (state_of
               (crawl_page 9 docs_site (new_processor ''http://h/'', []) ''http://h/'')))) \<and>
          url c = ''http://h/docs/q'' \<and>
          Get ''http://h/docs/q'' (Inr r) \<in> set (snd (state_of
               (crawl_page 9 docs_site (new_processor ''http://h/'', []) ''http://h/''))) \<and>
          \<not> (400 \<le> status_code r \<and> status_code r < 600) \<and>
          find_main_content (decompose_all chrome_selectors (html r)) \<noteq> None \<and>
          fst (extract_content (html r) ''http://h/docs/q'') = Some c)"
proof -
  let ?st = "state_of (crawl_page 9 docs_site (new_processor ''http://h/'', []) ''http://h/'')"
  have h: "\<forall>c \<in> set (chunks (new_processor ''http://h/'')). \<exists>r. Get (url c) (Inr r) \<in> set [] \<and>
       raise_for_status r = Inr () \<and> fst (extract_content (html r) (url c)) = Some c"
    by (simp add: new_processor_def)
  have "''http://h/docs/q'' \<in> set (map url (chunks (fst ?st)))"
    using docs_site_chunk_urls by simp
  then obtain c where c: "c \<in> set (chunks (fst ?st))" and u: "url c = ''http://h/docs/q''"
    by auto
  from chunks_from_fetched_pages [OF h, of 9 docs_site "''http://h/''"] c u
  obtain r where "Get ''http://h/docs/q'' (Inr r) \<in> set (snd ?st)"
      "\<not> (400 \<le> status_code r \<and> status_code r < 600)"
      "find_main_content (decompose_all chrome_selectors (html r)) \<noteq> None"
      "fst (extract_content (html r) ''http://h/docs/q'') = Some c"
    by fastforce
  with c u docs_site_chunk_urls show ?thesis
    by (auto simp: new_processor_def)
qed

section \<open>Initialisation when the seed cannot be fetched\<close>

text \<open>
  A site that refuses every connection: \<open>initialize_with_url\<close> returns normally,
  with a processor that holds no chunk, and the only trace of the failure is the error
  line of \<open>crawl_page\<close>.
\<close>

theorem unreachable_seed_not_raised:
  "initialize_with_url 9 down_site (\<lparr>processor = None\<rparr>, []) ''http://h/'' =
     Returned (\<lparr>processor = Some (new_processor ''http://h/'')\<rparr>,
       [LogInfo ''Processed 0 documentation chunks'',
        LogError ''Error crawling http://h/: Connection refused'',
        Get ''http://h/'' (Inl (Exception ''Connection refused'')),
        LogInfo ''Starting documentation processing for http://h/''])"
  by code_simp

text \<open>
  C4.  When the GET of the seed fails, \<open>initialize_with_url\<close> should log the
  failure and raise it again to its caller: its handler (log, then \<open>raise\<close>) is
  written for that.  The code does not get there.  The handler of \<open>crawl_page\<close>
  catches the exception of the seed's GET as it does for any other page, and
  \<open>process_documentation\<close> never reads the result of the task it submits.  So, for
  every site, \<open>initialize_with_url\<close> never raises on account of the crawl; and when
  the GET of the seed fails (\<open>requests.get\<close> or \<open>raise_for_status\<close> raises), it
  returns normally: \<open>crawl_page\<close> has logged \<open>Error crawling\<close> with the URL and
  the text of the exception, the agent has a processor with an empty visited set and no
  chunk, and the last log line reports 0 chunks.
\<close>

theorem seed_failure_logged_not_raised:
  "(\<forall>e s. initialize_with_url n E (a, tr) u \<noteq> Raised e s) \<and>
   (is_valid_url (parse_url E) u u = Inr True \<and>
    fetch (requests_get E (LogInfo (''Starting documentation processing for '' @ u) # tr) u) = Inl e
    \<longrightarrow> initialize_with_url (Suc n) E (a, tr) u =
          Returned (a\<lparr>processor := Some (new_processor u)\<rparr>,
            LogInfo ''Processed 0 documentation chunks'' #
            LogError (''Error crawling '' @ u @ '': '' @ str e) #
            Get u (requests_get E (LogInfo (''Starting documentation processing for '' @ u) # tr) u) #
            LogInfo (''Starting documentation processing for '' @ u) # tr))"
proof (intro conjI impI allI)
  fix e s
  show "initialize_with_url n E (a, tr) u \<noteq> Raised e s"
    by (simp del: crawl_page.simps split: outcome.splits prod.splits)
next
  let ?tr1 = "LogInfo (''Starting documentation processing for '' @ u) # tr"
  assume h: "is_valid_url (parse_url E) u u = Inr True \<and> fetch (requests_get E ?tr1 u) = Inl e"
  have nv: "u \<notin> visited_urls (new_processor u)"
    and b: "base_url (new_processor u) = u" and c: "chunks (new_processor u) = []"
    by (simp_all add: new_processor_def)
  have "crawl_page (Suc n) E (new_processor u, ?tr1) u =
          Returned (new_processor u,
            LogError (''Error crawling '' @ u @ '': '' @ str e) # Get u (requests_get E ?tr1 u) # ?tr1)"
    using crawl_page_fetch_failed[OF nv, of E ?tr1 e n] h b by simp
  then show "initialize_with_url (Suc n) E (a, tr) u =
          Returned (a\<lparr>processor := Some (new_processor u)\<rparr>,
            LogInfo ''Processed 0 documentation chunks'' #
            LogError (''Error crawling '' @ u @ '': '' @ str e) #
            Get u (requests_get E ?tr1 u) # ?tr1)"
    using b c by (simp del: crawl_page.simps add: str_nat_0)
qed

theorem seed_failure_logged_not_raised_witness:
  "is_valid_url urlparse ''http://h/'' ''http://h/'' = Inr True \<and>
   initialize_with_url (Suc 0) down_site (\<lparr>processor = None\<rparr>, []) ''http://h/'' =
     Returned (\<lparr>processor = Some (new_processor ''http://h/'')\<rparr>,
       [LogInfo ''Processed 0 documentation chunks'',
        LogError ''Error crawling http://h/: Connection refused'',
        Get ''http://h/'' (Inl (Exception ''Connection refused'')),
        LogInfo ''Starting documentation processing for http://h/''])"
proof -
  have v: "is_valid_url urlparse ''http://h/'' ''http://h/'' = Inr True" by code_simp
  show ?thesis
    using v seed_failure_logged_not_raised
            [of 0 down_site "\<lparr>processor = None\<rparr>" "[]" "''http://h/''"
                "Exception ''Connection refused''"]
    by (simp add: down_site_def static_site_def fetch_def)
qed

section \<open>Extraction of the content\<close>

text \<open>
  C5, as the specification states it, fails: the region is the first element in
  document order that matches one of \<open>main\<close>, \<open>article\<close>, \<open>.content\<close>,
  \<open>.documentation\<close>, which need not be the \<open>main\<close> element.  On a page that has
  the five kinds of stripped elements, an \<open>article\<close> with the text \<open>X\<close>, and then
  the \<open>main\<close> element with the texts \<open>A\<close> and \<open>B\<close>, the content is \<open>X\<close>.
\<close>

theorem article_before_main:
  "stripped_strings main_AB = [''A'', ''B''] \<and>
   map_option content (fst (extract_content article_first_page ''http://h/'')) = Some ''X''"
  by code_simp

text \<open>
  C5, amended.  When, after the navigation, header, footer, script and style elements
  have been removed, the first element in document order that matches one of the four
  selectors has the non-empty stripped text nodes \<open>A\<close> and \<open>B\<close>, the content of the
  chunk is \<open>A\<close>, a space, \<open>B\<close>; and no navigation, header, footer, script or style
  element is left inside that element, so none of their text is in the content.
\<close>

theorem main_region_text:
  assumes "select_one main_selectors (decompose_all chrome_selectors doc) = Some m"
    and "stripped_strings m = [A, B]"
  shows "map_option content (fst (extract_content doc u)) = Some (A @ '' '' @ B) \<and>
         (\<forall>d \<in> set (descendants m). \<not> matches_any chrome_selectors d)"
proof
  show "map_option content (fst (extract_content doc u)) = Some (A @ '' '' @ B)"
    using assms by (simp add: extract_content_def find_main_content_def Let_def)
next
  have "m \<in> set (concat (map descendants (decompose_all chrome_selectors doc)))"
    using assms(1) select_one_in by blast
  then show "\<forall>d \<in> set (descendants m). \<not> matches_any chrome_selectors d"
    using descendants_in_forest descendants_decompose_all_clean by blast
qed

lemma scenario_page_region:
  "select_one main_selectors (decompose_all chrome_selectors scenario_page) = Some main_AB"
  by code_simp

lemma main_AB_strings: "stripped_strings main_AB = [''A'', ''B'']"
  by code_simp

theorem main_region_text_witness:
  "select_one main_selectors (decompose_all chrome_selectors scenario_page) = Some main_AB \<and>
   stripped_strings main_AB = [''A'', ''B''] \<and>
   map_option content (fst (extract_content scenario_page ''http://h/'')) = Some ''A B'' \<and>
   list_all (\<lambda>d. \<not> matches_any chrome_selectors d) (descendants main_AB)"
  using main_region_text [OF scenario_page_region main_AB_strings, of "''http://h/''"]
        scenario_page_region main_AB_strings
  by (simp add: list_all_iff)

section \<open>The title of a chunk\<close>

text \<open>
  C6.  The title of a chunk should be the text of the \<open>title\<close> element of the page
  when there is one, and the URL otherwise; \<open>DocumentChunk\<close> declares it a string.
  On a page whose \<open>title\<close> element is empty, \<open>soup.title\<close> is a tag, its
  \<open>string\<close> is \<open>None\<close>, and the chunk is stored with the title \<open>None\<close>, which is
  neither the text of the element (the empty string) nor the URL; \<open>format_context\<close>
  then prints \<open>Title: None\<close>.
\<close>

theorem empty_title_gives_none:
  "select_one [Tag ''title''] empty_title_page = Some (Element ''title'' [] []) \<and>
   fst (extract_content empty_title_page ''http://h/'') =
     Some \<lparr>content = ''Hello'', url = ''http://h/'', title = None\<rparr> \<and>
   format_context
     \<lparr>processor = Some \<lparr>base_url = ''http://h/'', visited_urls = {''http://h/''},
          chunks = [\<lparr>content = ''Hello'', url = ''http://h/'', title = None\<rparr>]\<rparr>\<rparr> =
     ''Here is the relevant documentation:'' @ nl @ nl @
     ''Source: http://h/'' @ nl @ ''Title: None'' @ nl @ ''Content: Hello'' @ nl @ nl"
  by code_simp

section \<open>A link that cannot be parsed\<close>

text \<open>
  C10.  A malformed link found on a page should be skipped silently, without any effect
  on the rest of the crawl; \<open>is_valid_url\<close> is written for that: it returns
  \<open>False\<close> when the parser raises.  But \<open>crawl_page\<close> passes every \<open>href\<close>
  through \<open>urljoin\<close> first, which parses it and raises; the exception leaves the loop
  over the links and reaches the handler of \<open>crawl_page\<close>, which logs an error, and
  the links that follow on the page are never looked at.  On the site below the home
  page links to \<open>http://[::1\<close> and then to \<open>http://h/docs/q\<close>, which passes the
  filter: the crawl logs \<open>Error crawling http://h/: Invalid IPv6 URL\<close> and ends
  without a GET for the second link.
\<close>

theorem malformed_href_drops_links:
  "join_url bad_href_site ''http://h/'' ''http://[::1'' = Inl (Exception ''Invalid IPv6 URL'') \<and>
   is_valid_url urlparse ''http://h/'' ''http://h/docs/q'' = Inr True \<and>
   map href (find_all_a_href (snd (extract_content bad_href_home ''http://h/'')))
     = [''http://[::1'', ''http://h/docs/q''] \<and>
   crawl_page 9 bad_href_site (new_processor ''http://h/'', []) ''http://h/'' =
     Returned
       (\<lparr>base_url = ''http://h/'', visited_urls = {''http://h/''},
          chunks = [\<lparr>content = ''Hi broken Q'', url = ''http://h/'',
                     title = Some ''http://h/''\<rparr>]\<rparr>,
        [LogError ''Error crawling http://h/: Invalid IPv6 URL'',
         Get ''http://h/'' (page_200 ''http://h/'' bad_href_home)])"
  by code_simp

end
